theory Spec2Isabelle
  imports Complex_Main
begin

section \<open>Numbers and strings of the host language\<close>

text \<open>
  The source is TypeScript; every quantity (seconds, pixels, pointer coordinates) has the
  type \<^verbatim>\<open>number\<close>. It is modelled by \<^typ>\<open>real\<close>: arithmetic is exact, and the
  values \<^verbatim>\<open>NaN\<close> and \<^verbatim>\<open>Infinity\<close> do not exist. The only divisions are by the
  constants 60 and 80, by twice a tick interval (at least one second), and by
  \<^verbatim>\<open>pixelsPerSecond\<close>, which the zoom slider keeps between 20 and 150; statements that
  involve the last one assume it is positive. Integral results of \<^verbatim>\<open>Math.floor\<close> and
  \<^verbatim>\<open>Math.ceil\<close> are kept as \<^typ>\<open>int\<close>.
\<close>

text \<open>The remainder operator \<^verbatim>\<open>a % b\<close>: the quotient is truncated towards zero, so
  the result has the sign of the dividend.\<close>

definition js_trunc :: "real \<Rightarrow> int" where
  "js_trunc x = (if 0 \<le> x then \<lfloor>x\<rfloor> else \<lceil>x\<rceil>)"

definition js_rem :: "real \<Rightarrow> real \<Rightarrow> real" where
  "js_rem a b = a - b * of_int (js_trunc (a / b))"

text \<open>\<^verbatim>\<open>Number.prototype.toString\<close> on an integral value: the decimal numeral, with a
  leading minus sign for a negative value (the notation of every integer of magnitude below
  \<open>10\<^sup>2\<^sup>1\<close>).\<close>

definition digit_char :: "nat \<Rightarrow> char" where
  "digit_char d = ''0123456789'' ! d"

fun nat_toString :: "nat \<Rightarrow> string" where
  "nat_toString n =
     (if n < 10 then [digit_char n] else nat_toString (n div 10) @ [digit_char (n mod 10)])"

definition toString :: "int \<Rightarrow> string" where
  "toString i = (if i < 0 then CHR ''-'' # nat_toString (nat (- i)) else nat_toString (nat i))"

text \<open>\<^verbatim>\<open>String.prototype.padStart(n, c)\<close> for a one-character filler \<open>c\<close>.\<close>

definition padStart :: "string \<Rightarrow> nat \<Rightarrow> char \<Rightarrow> string" where
  "padStart s n c = replicate (n - length s) c @ s"

section \<open>The time axis (TimelineRuler)\<close>

text \<open>\<^verbatim>\<open>formatTime(seconds)\<close>: minutes, a colon, and the seconds padded to two places.\<close>

definition formatTime :: "real \<Rightarrow> string" where
  "formatTime seconds =
     (let mins = \<lfloor>seconds / 60\<rfloor>;
          secs = \<lfloor>js_rem seconds 60\<rfloor>
      in toString mins @ '':'' @ padStart (toString secs) 2 (CHR ''0''))"

definition EXTRA_TICKS :: real where
  "EXTRA_TICKS = 3"

definition candidates :: "real list" where
  "candidates = [0.5, 1, 2, 5, 10, 15, 30, 60, 120, 300]"

text \<open>The \<^verbatim>\<open>for (const c of candidates)\<close> loop of \<^verbatim>\<open>chooseTickInterval\<close>: the first
  candidate that passes the test is returned from inside the loop.\<close>

fun firstFit :: "real list \<Rightarrow> real \<Rightarrow> real \<Rightarrow> real option" where
  "firstFit [] pixelsPerSecond minPixelGap = None"
| "firstFit (c # cs) pixelsPerSecond minPixelGap =
     (if c * pixelsPerSecond \<ge> minPixelGap then Some c
      else firstFit cs pixelsPerSecond minPixelGap)"

definition chooseTickInterval :: "real \<Rightarrow> real \<Rightarrow> real" where
  "chooseTickInterval pixelsPerSecond minPixelGap =
     (case firstFit candidates pixelsPerSecond minPixelGap of
        Some c \<Rightarrow> c
      | None \<Rightarrow> candidates ! (length candidates - 1))"

text \<open>The call sites pass no second argument, so \<^verbatim>\<open>minPixelGap\<close> has its default.\<close>

definition minPixelGap_default :: real where
  "minPixelGap_default = 60"

section \<open>Chunks (types.ts)\<close>

text \<open>\<^verbatim>\<open>AudioChunkData\<close>. The demo table has the type
  \<^verbatim>\<open>Omit<AudioChunkData, "durationSeconds">\<close>, which is the base record here; the spread
  \<^verbatim>\<open>{ ...c, durationSeconds: dur }\<close> is \<open>withDuration\<close>. The field \<^verbatim>\<open>id\<close> is
  written \<open>id'\<close>.\<close>

record ChunkSeed =
  id' :: string
  label :: string
  audioUrl :: string
  gapBefore :: real

record AudioChunkData = ChunkSeed +
  durationSeconds :: real

definition withDuration :: "ChunkSeed \<Rightarrow> real \<Rightarrow> AudioChunkData" where
  "withDuration c dur =
     \<lparr>id' = id' c, label = label c, audioUrl = audioUrl c, gapBefore = gapBefore c,
      durationSeconds = dur\<rparr>"

record DragState =
  chunkId :: string
  startMouseX :: real
  initialGapBefore :: real

definition DEFAULT_PIXELS_PER_SECOND :: real where
  "DEFAULT_PIXELS_PER_SECOND = 50"

definition MIN_PIXELS_PER_SECOND :: real where
  "MIN_PIXELS_PER_SECOND = 20"

definition MAX_PIXELS_PER_SECOND :: real where
  "MAX_PIXELS_PER_SECOND = 150"

section \<open>The ruler (TimelineRuler)\<close>

text \<open>\<^verbatim>\<open>chunks.reduce((sum, c) => sum + c.gapBefore + c.durationSeconds * pixelsPerSecond, 0)\<close>\<close>

definition contentWidth :: "AudioChunkData list \<Rightarrow> real \<Rightarrow> real" where
  "contentWidth chunks pixelsPerSecond =
     foldl (\<lambda>sum c. sum + gapBefore c + durationSeconds c * pixelsPerSecond) 0 chunks"

record Tick =
  time :: real
  px :: real
  isMajor :: bool

text \<open>Every candidate is at least half a second, so the tick loop below advances by at
  least that much in every round.\<close>

lemma firstFit_lower:
  "firstFit cs p g = Some c \<Longrightarrow> \<forall>x\<in>set cs. b \<le> x \<Longrightarrow> b \<le> c"
  by (induction cs) (auto split: if_splits)

lemma chooseTickInterval_lower: "1 / 2 \<le> chooseTickInterval p g"
proof (cases "firstFit candidates p g")
  case None
  then show ?thesis by (simp add: chooseTickInterval_def candidates_def)
next
  case (Some c)
  have "\<forall>x\<in>set candidates. 1 / 2 \<le> x" by (simp add: candidates_def)
  with Some have "1 / 2 \<le> c" by (rule firstFit_lower)
  with Some show ?thesis by (simp add: chooseTickInterval_def)
qed

text \<open>The loop \<^verbatim>\<open>for (let t = 0; t <= extendedSeconds; t += interval)\<close>, with
  \<^verbatim>\<open>interval = chooseTickInterval(pixelsPerSecond)\<close> taken from the enclosing scope; the
  last argument is the array \<^verbatim>\<open>result\<close>.\<close>

function tickLoop :: "real \<Rightarrow> real \<Rightarrow> real \<Rightarrow> Tick list \<Rightarrow> Tick list" where
  "tickLoop pixelsPerSecond extendedSeconds t result =
     (if t \<le> extendedSeconds then
        tickLoop pixelsPerSecond extendedSeconds
          (t + chooseTickInterval pixelsPerSecond minPixelGap_default)
          (result @
            [\<lparr>time = t, px = t * pixelsPerSecond,
              isMajor = (t = 0 \<or>
                js_rem t (chooseTickInterval pixelsPerSecond minPixelGap_default * 2) = 0)\<rparr>])
      else result)"
  by pat_completeness auto
termination
proof (relation "measure (\<lambda>(p, e, t, r). nat (\<lfloor>(e - t) * 2\<rfloor> + 1))")
  show "wf (measure (\<lambda>(p, e, t, r). nat (\<lfloor>(e - t) * 2\<rfloor> + 1)))"
    by simp
next
  fix pixelsPerSecond extendedSeconds t :: real and result :: "Tick list"
  assume le: "t \<le> extendedSeconds"
  let ?i = "chooseTickInterval pixelsPerSecond minPixelGap_default"
  have i: "1 / 2 \<le> ?i" by (rule chooseTickInterval_lower)
  have "(extendedSeconds - (t + ?i)) * 2 \<le> (extendedSeconds - t) * 2 - 1"
    using i by simp
  then have "\<lfloor>(extendedSeconds - (t + ?i)) * 2\<rfloor> \<le> \<lfloor>(extendedSeconds - t) * 2 - 1\<rfloor>"
    by (rule floor_mono)
  moreover have "\<lfloor>(extendedSeconds - t) * 2 - 1\<rfloor> = \<lfloor>(extendedSeconds - t) * 2\<rfloor> - 1"
    by simp
  moreover have "0 \<le> \<lfloor>(extendedSeconds - t) * 2\<rfloor>"
    using le by simp
  ultimately have "nat (\<lfloor>(extendedSeconds - (t + ?i)) * 2\<rfloor> + 1)
      < nat (\<lfloor>(extendedSeconds - t) * 2\<rfloor> + 1)"
    by linarith
  then show "((pixelsPerSecond, extendedSeconds, t + ?i,
        result @ [\<lparr>time = t, px = t * pixelsPerSecond,
          isMajor = (t = 0 \<or> js_rem t (?i * 2) = 0)\<rparr>]),
       (pixelsPerSecond, extendedSeconds, t, result))
      \<in> measure (\<lambda>(p, e, t, r). nat (\<lfloor>(e - t) * 2\<rfloor> + 1))"
    by simp
qed

record Ruler =
  ticks :: "Tick list"
  rulerWidth :: real

text \<open>The second \<^verbatim>\<open>useMemo\<close> of \<^verbatim>\<open>TimelineRuler\<close>: the ticks and the width the ruler's
  element is given. The code computes \<open>extendedWidth\<close> in binary floating point, where
  dividing by \<^verbatim>\<open>pixelsPerSecond\<close> and multiplying by it again can change the last place;
  the width is therefore only evaluated below at inputs whose intermediate values are
  exactly representable.\<close>

definition TimelineRuler :: "AudioChunkData list \<Rightarrow> real \<Rightarrow> Ruler" where
  "TimelineRuler chunks pixelsPerSecond =
     (let interval = chooseTickInterval pixelsPerSecond minPixelGap_default;
          contentSeconds = contentWidth chunks pixelsPerSecond / pixelsPerSecond;
          extendedSeconds = contentSeconds + interval * EXTRA_TICKS;
          extendedWidth = extendedSeconds * pixelsPerSecond
      in \<lparr>ticks = tickLoop pixelsPerSecond extendedSeconds 0 [],
          rulerWidth = extendedWidth\<rparr>)"

section \<open>The chunk row (AudioTimeline, TimelineGap, AudioChunk)\<close>

text \<open>\<^verbatim>\<open>TimelineGap\<close> renders nothing when its width is not positive, and otherwise a
  spacer of that width that does not shrink. The result is the spacer's width, if there is
  a spacer.\<close>

definition TimelineGap :: "real \<Rightarrow> real option" where
  "TimelineGap width = (if width \<le> 0 then None else Some width)"

text \<open>The card of \<^verbatim>\<open>AudioChunk\<close> has the style
  \<^verbatim>\<open>{ width: `${width}px`, minWidth: "60px" }\<close> with
  \<^verbatim>\<open>width = chunk.durationSeconds * pixelsPerSecond\<close> and does not shrink, so it is laid
  out at its width, but at 60 pixels at least.\<close>

definition AudioChunk :: "AudioChunkData \<Rightarrow> real \<Rightarrow> real" where
  "AudioChunk chunk pixelsPerSecond =
     (let width = durationSeconds chunk * pixelsPerSecond in max 60 width)"

text \<open>The row \<^verbatim>\<open>chunks.map((chunk, i) => ...)\<close> of \<^verbatim>\<open>AudioTimeline\<close>: for every chunk a
  cell that holds the gap spacer, for \<^verbatim>\<open>i > 0\<close> only, and the card. The cells are laid
  out left to right without shrinking, so the row is as wide as its cells together; the
  first argument is the index \<open>i\<close>.\<close>

fun chunkCells :: "nat \<Rightarrow> AudioChunkData list \<Rightarrow> real \<Rightarrow> real list" where
  "chunkCells i [] pixelsPerSecond = []"
| "chunkCells i (chunk # rest) pixelsPerSecond =
     ((if i > 0 then (case TimelineGap (gapBefore chunk) of None \<Rightarrow> 0 | Some w \<Rightarrow> w) else 0) +
      AudioChunk chunk pixelsPerSecond) #
     chunkCells (i + 1) rest pixelsPerSecond"

definition chunkRowWidth :: "AudioChunkData list \<Rightarrow> real \<Rightarrow> real" where
  "chunkRowWidth chunks pixelsPerSecond = sum_list (chunkCells 0 chunks pixelsPerSecond)"

section \<open>The state of the component and of the page\<close>

text \<open>The scroll container as the drag hook sees it: the left and right edges of its
  bounding rectangle and its scroll offset. An assignment to \<^verbatim>\<open>scrollLeft\<close> is modelled as
  the plain assignment the code writes; a browser additionally keeps the offset inside the
  scrollable range.\<close>

record Container =
  rectLeft :: real
  rectRight :: real
  scrollLeft :: real

record MouseEvent =
  button :: int
  clientX :: real
  defaultPrevented :: bool

text \<open>The React state and refs of \<^verbatim>\<open>AudioTimeline\<close> and \<^verbatim>\<open>useTimelineDrag\<close>, and the part
  of the page they act on: the animation frames that are requested and not yet run or
  cancelled (\<open>rafQueue\<close>, by handle; \<open>rafCounter\<close> is the next handle), whether the
  document has the hook's two listeners, and the number of \<^verbatim>\<open>console.error\<close> calls.\<close>

record Timeline =
  chunks :: "AudioChunkData list"
  pixelsPerSecond :: real
  loading :: bool
  cancelled :: bool
  scrollContainerRef :: "Container option"
  dragState :: "DragState option"
  dragRef :: "DragState option"
  scrollRafRef :: "nat option"
  mouseXRef :: real
  rafQueue :: "nat list"
  rafCounter :: nat
  mousemoveListener :: bool
  mouseupListener :: bool
  consoleErrors :: nat

definition initial :: Timeline where
  "initial =
     \<lparr>chunks = [], pixelsPerSecond = DEFAULT_PIXELS_PER_SECOND, loading = True,
      cancelled = False, scrollContainerRef = None, dragState = None, dragRef = None,
      scrollRafRef = None, mouseXRef = 0, rafQueue = [], rafCounter = 1,
      mousemoveListener = False, mouseupListener = False, consoleErrors = 0\<rparr>"

section \<open>Loading the durations (AudioTimeline)\<close>

text \<open>\<^verbatim>\<open>DEMO_CHUNKS\<close>. \<^verbatim>\<open>GLOBALS.BASE_URL\<close> is declared outside the files at hand and is a
  parameter.\<close>

definition DEMO_CHUNKS :: "string \<Rightarrow> ChunkSeed list" where
  "DEMO_CHUNKS BASE_URL =
     [\<lparr>id' = ''a'', label = ''Arrow'', audioUrl = BASE_URL @ ''/sounds/arrow.mp3'',
        gapBefore = 0\<rparr>,
      \<lparr>id' = ''b'', label = ''Clash Royale'', audioUrl = BASE_URL @ ''/sounds/clashRoyale.mp3'',
        gapBefore = 0\<rparr>,
      \<lparr>id' = ''c'', label = ''Goblins'', audioUrl = BASE_URL @ ''/sounds/goblins.mp3'',
        gapBefore = 0\<rparr>,
      \<lparr>id' = ''d'', label = ''Mini Pekka'', audioUrl = BASE_URL @ ''/sounds/miniPekka.mp3'',
        gapBefore = 0\<rparr>,
      \<lparr>id' = ''e'', label = ''Rocket'', audioUrl = BASE_URL @ ''/sounds/rocket.mp3'',
        gapBefore = 0\<rparr>]"

text \<open>How a promise ends: fulfilled with a value, rejected, or never settled.
  \<^verbatim>\<open>Promise.all\<close> rejects as soon as one of its promises rejects, is fulfilled with the
  values in order once all are fulfilled, and stays pending otherwise.\<close>

datatype 'a Settled = Fulfilled 'a | Rejected | Pending

fun then_Settled :: "('a \<Rightarrow> 'b) \<Rightarrow> 'a Settled \<Rightarrow> 'b Settled" where
  "then_Settled f (Fulfilled v) = Fulfilled (f v)"
| "then_Settled f Rejected = Rejected"
| "then_Settled f Pending = Pending"

fun Promise_all :: "'a Settled list \<Rightarrow> 'a list Settled" where
  "Promise_all [] = Fulfilled []"
| "Promise_all (p # ps) =
     (case p of
        Rejected \<Rightarrow> Rejected
      | Pending \<Rightarrow> (case Promise_all ps of Rejected \<Rightarrow> Rejected | _ \<Rightarrow> Pending)
      | Fulfilled v \<Rightarrow>
          (case Promise_all ps of
             Rejected \<Rightarrow> Rejected
           | Pending \<Rightarrow> Pending
           | Fulfilled vs \<Rightarrow> Fulfilled (v # vs)))"

text \<open>What the asynchronous function of the mount effect does once its \<^verbatim>\<open>await\<close> is over,
  as the list of its calls in order. \<^verbatim>\<open>loadAudioDuration\<close> resolves from the browser's
  audio element; its outcome per URL is a parameter. The flag \<^verbatim>\<open>cancelled\<close> is read at that
  moment.\<close>

datatype Action = ConsoleError | SetChunks "AudioChunkData list" | SetLoading bool

definition loadEffect :: "string \<Rightarrow> (string \<Rightarrow> real Settled) \<Rightarrow> bool \<Rightarrow> Action list" where
  "loadEffect BASE_URL loadAudioDuration isCancelled =
     (case Promise_all
             (map (\<lambda>c. then_Settled (\<lambda>dur. withDuration c dur) (loadAudioDuration (audioUrl c)))
                (DEMO_CHUNKS BASE_URL)) of
        Fulfilled loaded \<Rightarrow>
          (if \<not> isCancelled then [SetChunks loaded, SetLoading False] else [])
      | Rejected \<Rightarrow>
          ConsoleError #
          (if \<not> isCancelled
           then [SetChunks (map (\<lambda>c. withDuration c 5) (DEMO_CHUNKS BASE_URL)), SetLoading False]
           else [])
      | Pending \<Rightarrow> [])"

fun perform :: "Timeline \<Rightarrow> Action \<Rightarrow> Timeline" where
  "perform s ConsoleError = s\<lparr>consoleErrors := consoleErrors s + 1\<rparr>"
| "perform s (SetChunks cs) = s\<lparr>chunks := cs\<rparr>"
| "perform s (SetLoading b) = s\<lparr>loading := b\<rparr>"

definition handleZoomChange :: "real \<Rightarrow> Timeline \<Rightarrow> Timeline" where
  "handleZoomChange v s = s\<lparr>pixelsPerSecond := v\<rparr>"

text \<open>The wheel listener; it is attached only when the container exists.\<close>

definition onWheel :: "real \<Rightarrow> Timeline \<Rightarrow> Timeline" where
  "onWheel deltaY s =
     (case scrollContainerRef s of
        None \<Rightarrow> s
      | Some el \<Rightarrow>
          if deltaY = 0 then s
          else s\<lparr>scrollContainerRef := Some (el\<lparr>scrollLeft := scrollLeft el + deltaY\<rparr>)\<rparr>)"

section \<open>The drag controller (useTimelineDrag)\<close>

definition EDGE_THRESHOLD :: real where
  "EDGE_THRESHOLD = 80"

definition SCROLL_SPEED :: real where
  "SCROLL_SPEED = 12"

text \<open>\<^verbatim>\<open>requestAnimationFrame\<close> and \<^verbatim>\<open>cancelAnimationFrame\<close> of the page.\<close>

definition requestAnimationFrame :: "Timeline \<Rightarrow> nat \<times> Timeline" where
  "requestAnimationFrame s =
     (rafCounter s, s\<lparr>rafQueue := rafQueue s @ [rafCounter s], rafCounter := rafCounter s + 1\<rparr>)"

definition cancelAnimationFrame :: "nat \<Rightarrow> Timeline \<Rightarrow> Timeline" where
  "cancelAnimationFrame h s = s\<lparr>rafQueue := removeAll h (rafQueue s)\<rparr>"

definition stopAutoScroll :: "Timeline \<Rightarrow> Timeline" where
  "stopAutoScroll s =
     (case scrollRafRef s of
        Some h \<Rightarrow> (cancelAnimationFrame h s)\<lparr>scrollRafRef := None\<rparr>
      | None \<Rightarrow> s)"

definition startAutoScroll :: "Timeline \<Rightarrow> Timeline" where
  "startAutoScroll s =
     (if scrollRafRef s = None
      then (let (h, s') = requestAnimationFrame s in s'\<lparr>scrollRafRef := Some h\<rparr>)
      else s)"

text \<open>\<^verbatim>\<open>autoScrollFnRef.current\<close>: one run of the animation-frame callback.\<close>

definition autoScrollFn :: "Timeline \<Rightarrow> Timeline" where
  "autoScrollFn s =
     (case scrollContainerRef s of
        None \<Rightarrow> s
      | Some container \<Rightarrow>
          (case dragRef s of
             None \<Rightarrow> s
           | Some drag \<Rightarrow>
               (let mouseX = mouseXRef s;
                    distFromRight = rectRight container - mouseX;
                    distFromLeft = mouseX - rectLeft container;
                    container' =
                      (if distFromRight < EDGE_THRESHOLD \<and> distFromRight > 0 then
                         (let intensity = 1 - distFromRight / EDGE_THRESHOLD
                          in container\<lparr>scrollLeft :=
                               scrollLeft container + of_int \<lceil>SCROLL_SPEED * intensity\<rceil>\<rparr>)
                       else if distFromLeft < EDGE_THRESHOLD \<and> distFromLeft > 0 then
                         (let intensity = 1 - distFromLeft / EDGE_THRESHOLD
                          in container\<lparr>scrollLeft :=
                               scrollLeft container - of_int \<lceil>SCROLL_SPEED * intensity\<rceil>\<rparr>)
                       else container);
                    (h, s') = requestAnimationFrame (s\<lparr>scrollContainerRef := Some container'\<rparr>)
                in s'\<lparr>scrollRafRef := Some h\<rparr>)))"

text \<open>\<^verbatim>\<open>handleMouseMoveRef.current\<close>\<close>

definition handleMouseMove :: "MouseEvent \<Rightarrow> Timeline \<Rightarrow> Timeline" where
  "handleMouseMove e s =
     (case dragRef s of
        None \<Rightarrow> s
      | Some drag \<Rightarrow>
          (let deltaX = clientX e - startMouseX drag;
               newGap = max 0 (initialGapBefore drag + deltaX)
           in s\<lparr>mouseXRef := clientX e,
                chunks := map (\<lambda>c. if id' c = chunkId drag then c\<lparr>gapBefore := newGap\<rparr> else c)
                            (chunks s)\<rparr>))"

text \<open>\<^verbatim>\<open>handleMouseUpRef.current\<close>\<close>

definition handleMouseUp :: "Timeline \<Rightarrow> Timeline" where
  "handleMouseUp s =
     (stopAutoScroll (s\<lparr>dragRef := None, dragState := None\<rparr>))
       \<lparr>mousemoveListener := False, mouseupListener := False\<rparr>"

text \<open>\<^verbatim>\<open>Array.prototype.findIndex\<close>: the first index whose element passes, or \<open>-1\<close>.\<close>

fun findIndexFrom :: "int \<Rightarrow> ('a \<Rightarrow> bool) \<Rightarrow> 'a list \<Rightarrow> int" where
  "findIndexFrom k P [] = - 1"
| "findIndexFrom k P (x # xs) = (if P x then k else findIndexFrom (k + 1) P xs)"

definition findIndex :: "('a \<Rightarrow> bool) \<Rightarrow> 'a list \<Rightarrow> int" where
  "findIndex P xs = findIndexFrom 0 P xs"

text \<open>\<^verbatim>\<open>onChunkMouseDown(chunkId, e)\<close>; the event is returned as the handler leaves it.\<close>

definition onChunkMouseDown :: "string \<Rightarrow> MouseEvent \<Rightarrow> Timeline \<Rightarrow> MouseEvent \<times> Timeline" where
  "onChunkMouseDown cid e s =
     (if button e \<noteq> 0 then (e, s)
      else
        (let e' = e\<lparr>defaultPrevented := True\<rparr>;
             chunkIndex = findIndex (\<lambda>c. id' c = cid) (chunks s)
         in if chunkIndex < 0 then (e', s)
            else if chunkIndex = 0 then (e', s)
            else
              (let chunk = chunks s ! nat chunkIndex;
                   state = \<lparr>chunkId = cid, startMouseX = clientX e,
                            initialGapBefore = gapBefore chunk\<rparr>;
                   s1 = s\<lparr>dragRef := Some state, mouseXRef := clientX e,
                          dragState := Some state\<rparr>;
                   s2 = startAutoScroll s1
               in (e', s2\<lparr>mousemoveListener := True, mouseupListener := True\<rparr>))))"

section \<open>The component as a transition system\<close>

text \<open>What can happen to a mounted component: the duration batch settles, the component
  unmounts, the page lays the container out anew (or the user scrolls it), the zoom slider
  or the wheel moves, a chunk header gets a mouse-down, the document gets a mouse-move or
  mouse-up, and a requested animation frame runs. Document events reach the hook only
  through the listeners it has registered.\<close>

datatype Event =
    LoadSettled "string \<Rightarrow> real Settled"
  | Unmount
  | Layout "Container option"
  | Zoom real
  | Wheel real
  | ChunkMouseDown string MouseEvent
  | DocumentMouseMove MouseEvent
  | DocumentMouseUp
  | AnimationFrame nat

fun step :: "string \<Rightarrow> Timeline \<Rightarrow> Event \<Rightarrow> Timeline" where
  "step BASE_URL s (LoadSettled outcome) =
     foldl perform s (loadEffect BASE_URL outcome (cancelled s))"
| "step BASE_URL s Unmount = s\<lparr>cancelled := True\<rparr>"
| "step BASE_URL s (Layout c) = s\<lparr>scrollContainerRef := c\<rparr>"
| "step BASE_URL s (Zoom v) = handleZoomChange v s"
| "step BASE_URL s (Wheel deltaY) = onWheel deltaY s"
| "step BASE_URL s (ChunkMouseDown cid e) = snd (onChunkMouseDown cid e s)"
| "step BASE_URL s (DocumentMouseMove e) =
     (if mousemoveListener s then handleMouseMove e s else s)"
| "step BASE_URL s DocumentMouseUp = (if mouseupListener s then handleMouseUp s else s)"
| "step BASE_URL s (AnimationFrame h) =
     (if h \<in> set (rafQueue s) then autoScrollFn (s\<lparr>rafQueue := removeAll h (rafQueue s)\<rparr>)
      else s)"

inductive reachable :: "string \<Rightarrow> Timeline \<Rightarrow> bool" for BASE_URL :: string where
  reachable_initial: "reachable BASE_URL initial"
| reachable_step: "reachable BASE_URL s \<Longrightarrow> reachable BASE_URL (step BASE_URL s ev)"

section \<open>Observations and fixtures\<close>

text \<open>How far one run of the animation-frame callback moves the scroll offset.\<close>

definition scrolledBy :: "Timeline \<Rightarrow> real" where
  "scrolledBy s =
     (case (scrollContainerRef s, scrollContainerRef (autoScrollFn s)) of
        (Some c, Some c') \<Rightarrow> scrollLeft c' - scrollLeft c
      | _ \<Rightarrow> 0)"

text \<open>The tick that the loop pushes at time \<open>t\<close>.\<close>

definition tickAt :: "real \<Rightarrow> real \<Rightarrow> Tick" where
  "tickAt p t =
     \<lparr>time = t, px = t * p,
      isMajor = (t = 0 \<or> js_rem t (chooseTickInterval p minPixelGap_default * 2) = 0)\<rparr>"

text \<open>The first chunk keeps a zero gap because the chunk identifiers are those of the demo
  table, in its order, and a drag session never names the first of them.\<close>

definition firstGapInv :: "Timeline \<Rightarrow> bool" where
  "firstGapInv s \<longleftrightarrow>
     (chunks s = [] \<or> map id' (chunks s) = [''a'', ''b'', ''c'', ''d'', ''e'']) \<and>
     (chunks s \<noteq> [] \<longrightarrow> gapBefore (hd (chunks s)) = 0) \<and>
     (\<forall>d. dragRef s = Some d \<longrightarrow> chunkId d \<noteq> ''a'')"

text \<open>A run of the component used for concrete checks: every duration resolves to two
  seconds (five chunks of 100 pixels at the default zoom), the second chunk is pressed at
  \<open>x = 100\<close>, the container spans the pixels 0 to 1000, and the pointer moves to \<open>x\<close>.\<close>

definition scenarioChunks :: "AudioChunkData list" where
  "scenarioChunks = map (\<lambda>c. withDuration c 2) (DEMO_CHUNKS [])"

text \<open>Five chunks of half a second each, with zero gaps: at 60 pixels per second each is
  30 pixels long.\<close>

definition shortChunks :: "AudioChunkData list" where
  "shortChunks = map (\<lambda>c. withDuration c (1 / 2)) (DEMO_CHUNKS [])"

definition loadedState :: Timeline where
  "loadedState = step [] initial (LoadSettled (\<lambda>url. Fulfilled 2))"

definition pointerAt :: "real \<Rightarrow> MouseEvent" where
  "pointerAt x = \<lparr>button = 0, clientX = x, defaultPrevented = False\<rparr>"

definition draggingState :: Timeline where
  "draggingState = step [] loadedState (ChunkMouseDown ''b'' (pointerAt 100))"

definition nearEdge :: "real \<Rightarrow> Timeline" where
  "nearEdge x =
     step [] (step [] draggingState
        (Layout (Some \<lparr>rectLeft = 0, rectRight = 1000, scrollLeft = 0\<rparr>)))
       (DocumentMouseMove (pointerAt x))"

text \<open>A batch in which one of the five sources fails to load.\<close>

definition goblinsFails :: "string \<Rightarrow> real Settled" where
  "goblinsFails url = (if url = ''/sounds/goblins.mp3'' then Rejected else Fulfilled 3)"

section \<open>Facts about the time axis\<close>

declare tickLoop.simps [simp del]

lemma firstFit_Some: "firstFit cs p g = Some c \<Longrightarrow> c \<in> set cs \<and> g \<le> c * p"
  by (induction cs) (auto split: if_splits)

lemma firstFit_least:
  "sorted cs \<Longrightarrow> firstFit cs p g = Some c \<Longrightarrow> c' \<in> set cs \<Longrightarrow> g \<le> c' * p \<Longrightarrow> c \<le> c'"
  by (induction cs) (auto split: if_splits)

lemma firstFit_None: "firstFit cs p g = None \<longleftrightarrow> (\<forall>c\<in>set cs. \<not> g \<le> c * p)"
  by (induction cs) auto

lemma sorted_candidates: "sorted candidates"
  by (simp add: candidates_def)

lemma interval_at_default_zoom: "chooseTickInterval 50 minPixelGap_default = 2"
  by (simp add: chooseTickInterval_def candidates_def minPixelGap_default_def)

lemma floor_div60: "0 \<le> s \<Longrightarrow> \<lfloor>s / 60\<rfloor> = \<lfloor>s\<rfloor> div 60" for s :: real
  using floor_divide_real_eq_div [of 60 s] by simp

lemma floor_rem60: "0 \<le> s \<Longrightarrow> \<lfloor>js_rem s 60\<rfloor> = \<lfloor>s\<rfloor> mod 60"
proof -
  assume s: "0 \<le> s"
  then have "0 \<le> s / 60" by simp
  then have "js_rem s 60 = s - of_int (60 * (\<lfloor>s\<rfloor> div 60))"
    using s by (simp add: js_rem_def js_trunc_def floor_div60)
  then have "\<lfloor>js_rem s 60\<rfloor> = \<lfloor>s\<rfloor> - 60 * (\<lfloor>s\<rfloor> div 60)"
    by (simp only: floor_diff_of_int)
  then show ?thesis by (simp add: minus_mult_div_eq_mod)
qed

lemma two_digits:
  "n < 100 \<Longrightarrow>
     padStart (nat_toString n) 2 (CHR ''0'') = [digit_char (n div 10), digit_char (n mod 10)]"
proof (cases "n < 10")
  case True
  then show ?thesis by (simp add: padStart_def digit_char_def)
next
  case False
  assume "n < 100"
  with False have "n div 10 < 10" by simp
  with False show ?thesis by (simp add: padStart_def)
qed

lemma foldl_width:
  "foldl (\<lambda>sum c. sum + gapBefore c + durationSeconds c * p) a cs =
     a + (\<Sum>c\<leftarrow>cs. gapBefore c + durationSeconds c * p)"
  by (induction cs arbitrary: a) (simp_all add: add.assoc)

lemma contentWidth_sum:
  "contentWidth cs p = (\<Sum>c\<leftarrow>cs. gapBefore c + durationSeconds c * p)"
  by (simp add: contentWidth_def foldl_width)

lemma scenario_content: "contentWidth scenarioChunks 50 = 500"
  by (simp add: contentWidth_sum scenarioChunks_def DEMO_CHUNKS_def withDuration_def)

lemma scenario_row: "chunkRowWidth scenarioChunks 50 = 500"
  by (simp add: chunkRowWidth_def AudioChunk_def TimelineGap_def scenarioChunks_def
      DEMO_CHUNKS_def withDuration_def)

lemma scenario_ruler: "rulerWidth (TimelineRuler scenarioChunks 50) = 800"
  by (simp add: TimelineRuler_def Let_def scenario_content interval_at_default_zoom
      EXTRA_TICKS_def)

lemma interval_at_zoom_60: "chooseTickInterval 60 minPixelGap_default = 1"
  by (simp add: chooseTickInterval_def candidates_def minPixelGap_default_def)

lemma short_content: "contentWidth shortChunks 60 = 150"
  by (simp add: contentWidth_sum shortChunks_def DEMO_CHUNKS_def withDuration_def)

lemma short_row: "chunkRowWidth shortChunks 60 = 300"
  by (simp add: chunkRowWidth_def AudioChunk_def TimelineGap_def shortChunks_def
      DEMO_CHUNKS_def withDuration_def)

lemma short_ruler: "rulerWidth (TimelineRuler shortChunks 60) = 330"
  by (simp add: TimelineRuler_def Let_def short_content interval_at_zoom_60 EXTRA_TICKS_def)

lemma map_upt_shift: "map f [0..<Suc n] = f 0 # map (\<lambda>k. f (Suc k)) [0..<n]"
  by (simp add: map_upt_Suc del: upt_Suc)

lemma tickLoop_closed:
  "tickLoop p e t r =
     r @ map (\<lambda>k. tickAt p (t + real k * chooseTickInterval p minPixelGap_default))
           [0..<(if t \<le> e
                 then nat \<lfloor>(e - t) / chooseTickInterval p minPixelGap_default\<rfloor> + 1
                 else 0)]"
proof (induction p e t r rule: tickLoop.induct)
  case (1 p e t r)
  let ?i = "chooseTickInterval p minPixelGap_default"
  have i: "0 < ?i" using chooseTickInterval_lower [of p minPixelGap_default] by simp
  show ?case
  proof (cases "t \<le> e")
    case False
    then show ?thesis by (subst tickLoop.simps) simp
  next
    case True
    let ?n = "if t + ?i \<le> e then nat \<lfloor>(e - (t + ?i)) / ?i\<rfloor> + 1 else 0"
    have cnt: "nat \<lfloor>(e - t) / ?i\<rfloor> + 1 = Suc ?n"
    proof (cases "t + ?i \<le> e")
      case True
      have "(e - (t + ?i)) / ?i = (e - t) / ?i - 1" using i by (simp add: field_simps)
      then have f: "\<lfloor>(e - (t + ?i)) / ?i\<rfloor> = \<lfloor>(e - t) / ?i\<rfloor> - 1" by simp
      have "0 \<le> (e - (t + ?i)) / ?i" using True i by simp
      then have "0 \<le> \<lfloor>(e - (t + ?i)) / ?i\<rfloor>" by simp
      with f have "nat \<lfloor>(e - t) / ?i\<rfloor> = Suc (nat \<lfloor>(e - (t + ?i)) / ?i\<rfloor>)"
        by linarith
      with True show ?thesis by (simp only: if_True Suc_eq_plus1)
    next
      case False
      then have "(e - t) / ?i < 1" using i by (simp add: field_simps)
      moreover have "0 \<le> (e - t) / ?i" using \<open>t \<le> e\<close> i by simp
      ultimately have "\<lfloor>(e - t) / ?i\<rfloor> = 0" by linarith
      with False show ?thesis by simp
    qed
    have "tickLoop p e t r = tickLoop p e (t + ?i) (r @ [tickAt p t])"
      using True by (subst tickLoop.simps) (simp add: tickAt_def)
    also have "\<dots> = (r @ [tickAt p t]) @ map (\<lambda>k. tickAt p (t + ?i + real k * ?i)) [0..<?n]"
      using "1.IH" [OF True] by (simp add: tickAt_def)
    also have "\<dots> = r @ map (\<lambda>k. tickAt p (t + real k * ?i)) [0..<Suc ?n]"
      by (simp add: map_upt_shift algebra_simps del: upt_Suc)
    finally show ?thesis using True cnt by simp
  qed
qed

lemma tick_count:
  fixes e i :: real
  assumes "0 < i"
  shows "(real k * i \<le> e) = (k < (if 0 \<le> e then nat \<lfloor>e / i\<rfloor> + 1 else 0))"
proof (cases "0 \<le> e")
  case False
  moreover have "0 \<le> real k * i" using assms by simp
  ultimately show ?thesis by auto
next
  case True
  then have q: "0 \<le> e / i" using assms by simp
  have "(real k * i \<le> e) = (real k \<le> e / i)" using assms by (simp add: field_simps)
  also have "\<dots> = (int k \<le> \<lfloor>e / i\<rfloor>)" by (simp add: le_floor_iff)
  also have "\<dots> = (k < nat \<lfloor>e / i\<rfloor> + 1)" using q by linarith
  finally show ?thesis using True by simp
qed

section \<open>Facts about the controller\<close>

lemma findIndexFrom_range:
  "findIndexFrom k P xs = - 1 \<or>
   (k \<le> findIndexFrom k P xs \<and> findIndexFrom k P xs < k + int (length xs))"
  by (induction xs arbitrary: k) (auto, force+)

lemma findIndexFrom_absent:
  "0 \<le> k \<Longrightarrow> findIndexFrom k P xs < 0 \<longleftrightarrow> (\<forall>x\<in>set xs. \<not> P x)"
proof (induction xs arbitrary: k)
  case Nil
  then show ?case by simp
next
  case (Cons x xs)
  from Cons.prems have "0 \<le> k + 1" by simp
  from Cons.IH [OF this] Cons.prems show ?case by auto
qed

lemma findIndex_absent: "findIndex P xs < 0 \<longleftrightarrow> (\<forall>x\<in>set xs. \<not> P x)"
  by (simp add: findIndex_def findIndexFrom_absent)

lemma findIndex_zero: "findIndex P xs = 0 \<longleftrightarrow> xs \<noteq> [] \<and> P (hd xs)"
proof (cases xs)
  case Nil
  then show ?thesis by (simp add: findIndex_def)
next
  case (Cons x ys)
  with findIndexFrom_range [of 1 P ys] show ?thesis by (auto simp: findIndex_def)
qed

lemma findIndex_Nil: "findIndex P [] = - 1"
  by (simp add: findIndex_def)

lemma withDuration_fields [simp]:
  "id' (withDuration c d) = id' c" "gapBefore (withDuration c d) = gapBefore c"
  "durationSeconds (withDuration c d) = d"
  by (simp_all add: withDuration_def)

lemma demo_ids: "map id' (DEMO_CHUNKS B) = [''a'', ''b'', ''c'', ''d'', ''e'']"
  by (simp add: DEMO_CHUNKS_def)

lemma demo_gaps: "\<forall>c\<in>set (DEMO_CHUNKS B). gapBefore c = 0"
  by (simp add: DEMO_CHUNKS_def)

lemma demo_nonempty: "DEMO_CHUNKS B \<noteq> []"
  by (simp add: DEMO_CHUNKS_def)

lemma demo_hd_gap: "gapBefore (hd (DEMO_CHUNKS B)) = 0"
  by (simp add: DEMO_CHUNKS_def)

lemma Promise_all_Rejected: "Promise_all ps = Rejected \<longleftrightarrow> Rejected \<in> set ps"
  by (induction ps) (auto split: Settled.splits)

lemma Promise_all_Fulfilled_map:
  "Promise_all (map (\<lambda>c. then_Settled (f c) (g c)) cs) = Fulfilled vs \<Longrightarrow>
     \<exists>ds. length ds = length cs \<and> vs = map2 f cs ds"
proof (induction cs arbitrary: vs)
  case Nil
  then show ?case by simp
next
  case (Cons c cs)
  from Cons.prems obtain d ws where d: "g c = Fulfilled d"
    and ws: "Promise_all (map (\<lambda>c. then_Settled (f c) (g c)) cs) = Fulfilled ws"
    and vs: "vs = f c d # ws"
    by (cases "g c"; cases "Promise_all (map (\<lambda>c. then_Settled (f c) (g c)) cs)") auto
  from Cons.IH [OF ws] obtain ds where "length ds = length cs" "ws = map2 f cs ds" by blast
  with vs have "length (d # ds) = length (c # cs) \<and> vs = map2 f (c # cs) (d # ds)" by simp
  then show ?case by blast
qed

lemma map2_ids: "length ds = length cs \<Longrightarrow> map id' (map2 withDuration cs ds) = map id' cs"
  by (induction cs ds rule: list_induct2') simp_all

lemma map2_hd_gap:
  "length ds = length cs \<Longrightarrow> cs \<noteq> [] \<Longrightarrow>
     gapBefore (hd (map2 withDuration cs ds)) = gapBefore (hd cs)"
  by (cases cs; cases ds) simp_all

lemma loadEffect_cases:
  "loadEffect B ld k = [] \<or> loadEffect B ld k = [ConsoleError] \<or>
   (\<exists>ds. length ds = length (DEMO_CHUNKS B) \<and>
      loadEffect B ld k = [SetChunks (map2 withDuration (DEMO_CHUNKS B) ds), SetLoading False]) \<or>
   loadEffect B ld k =
     [ConsoleError, SetChunks (map (\<lambda>c. withDuration c 5) (DEMO_CHUNKS B)), SetLoading False]"
proof (cases "Promise_all
    (map (\<lambda>c. then_Settled (withDuration c) (ld (audioUrl c))) (DEMO_CHUNKS B))")
  case (Fulfilled vs)
  from Promise_all_Fulfilled_map [OF this] Fulfilled show ?thesis
    by (auto simp: loadEffect_def)
next
  case Rejected
  then show ?thesis by (simp add: loadEffect_def)
next
  case Pending
  then show ?thesis by (simp add: loadEffect_def)
qed

lemma loadEffect_rejected:
  assumes "\<exists>c\<in>set (DEMO_CHUNKS B). ld (audioUrl c) = Rejected" and "\<not> k"
  shows "loadEffect B ld k =
     [ConsoleError, SetChunks (map (\<lambda>c. withDuration c 5) (DEMO_CHUNKS B)), SetLoading False]"
proof -
  from assms(1) have "Promise_all
      (map (\<lambda>c. then_Settled (\<lambda>dur. withDuration c dur) (ld (audioUrl c))) (DEMO_CHUNKS B)) =
      Rejected"
    by (force simp: Promise_all_Rejected)
  with assms(2) show ?thesis by (simp add: loadEffect_def)
qed

subsection \<open>The first chunk's gap\<close>

lemma inv_initial: "firstGapInv initial"
  by (simp add: firstGapInv_def initial_def)

lemma inv_setChunks:
  assumes "firstGapInv s" and "map id' cs = [''a'', ''b'', ''c'', ''d'', ''e'']"
    and "gapBefore (hd cs) = 0"
  shows "firstGapInv (s\<lparr>chunks := cs\<rparr>)"
  using assms by (simp add: firstGapInv_def)

lemma inv_frame:
  assumes "firstGapInv s" and "chunks s' = chunks s" and "dragRef s' = dragRef s"
  shows "firstGapInv s'"
  using assms by (simp add: firstGapInv_def)

lemma inv_load: "firstGapInv s \<Longrightarrow> firstGapInv (foldl perform s (loadEffect B ld k))"
proof -
  assume inv: "firstGapInv s"
  have fb: "map id' (map (\<lambda>c. withDuration c 5) (DEMO_CHUNKS B)) = [''a'', ''b'', ''c'', ''d'', ''e'']"
    "gapBefore (hd (map (\<lambda>c. withDuration c 5) (DEMO_CHUNKS B))) = 0"
    by (simp_all add: DEMO_CHUNKS_def)
  from loadEffect_cases [of B ld k] show ?thesis
  proof (elim disjE exE conjE)
    assume "loadEffect B ld k = []"
    with inv show ?thesis by simp
  next
    assume "loadEffect B ld k = [ConsoleError]"
    with inv show ?thesis by (simp add: firstGapInv_def)
  next
    fix ds
    assume len: "length ds = length (DEMO_CHUNKS B)"
      and eff: "loadEffect B ld k =
        [SetChunks (map2 withDuration (DEMO_CHUNKS B) ds), SetLoading False]"
    have ids: "map id' (map2 withDuration (DEMO_CHUNKS B) ds) = [''a'', ''b'', ''c'', ''d'', ''e'']"
      using map2_ids [OF len] demo_ids [of B] by (simp only:)
    have gap: "gapBefore (hd (map2 withDuration (DEMO_CHUNKS B) ds)) = 0"
      using map2_hd_gap [OF len demo_nonempty] demo_hd_gap [of B] by (simp only:)
    from inv ids gap have "firstGapInv (s\<lparr>chunks := map2 withDuration (DEMO_CHUNKS B) ds\<rparr>)"
      by (rule inv_setChunks)
    then show ?thesis using eff by (simp add: firstGapInv_def)
  next
    assume eff: "loadEffect B ld k =
      [ConsoleError, SetChunks (map (\<lambda>c. withDuration c 5) (DEMO_CHUNKS B)), SetLoading False]"
    have "firstGapInv (s\<lparr>chunks := map (\<lambda>c. withDuration c 5) (DEMO_CHUNKS B)\<rparr>)"
      using inv fb by (intro inv_setChunks)
    then show ?thesis using eff by (simp add: firstGapInv_def)
  qed
qed

lemma mouseDown_drag:
  "dragRef (snd (onChunkMouseDown cid e s)) = dragRef s \<or>
   (0 < findIndex (\<lambda>c. id' c = cid) (chunks s) \<and>
    (\<exists>d. dragRef (snd (onChunkMouseDown cid e s)) = Some d \<and> chunkId d = cid))"
  by (auto simp: onChunkMouseDown_def Let_def startAutoScroll_def requestAnimationFrame_def)

lemma mouseDown_chunks: "chunks (snd (onChunkMouseDown cid e s)) = chunks s"
  by (auto simp: onChunkMouseDown_def Let_def startAutoScroll_def requestAnimationFrame_def)

lemma inv_mouseDown: "firstGapInv s \<Longrightarrow> firstGapInv (snd (onChunkMouseDown cid e s))"
proof -
  assume inv: "firstGapInv s"
  from mouseDown_drag [of cid e s] show ?thesis
  proof
    assume "dragRef (snd (onChunkMouseDown cid e s)) = dragRef s"
    with inv mouseDown_chunks show ?thesis by (rule inv_frame)
  next
    assume a: "0 < findIndex (\<lambda>c. id' c = cid) (chunks s) \<and>
      (\<exists>d. dragRef (snd (onChunkMouseDown cid e s)) = Some d \<and> chunkId d = cid)"
    then have ne: "chunks s \<noteq> []" by (auto simp: findIndex_Nil)
    from a have "findIndex (\<lambda>c. id' c = cid) (chunks s) \<noteq> 0" by simp
    with ne have "id' (hd (chunks s)) \<noteq> cid" by (simp add: findIndex_zero)
    moreover from inv ne have "id' (hd (chunks s)) = ''a''"
      by (cases "chunks s") (auto simp: firstGapInv_def)
    ultimately have "cid \<noteq> ''a''" by simp
    with a inv show ?thesis by (auto simp: firstGapInv_def mouseDown_chunks)
  qed
qed

lemma map_gap_ids:
  "map (\<lambda>x. id' (if id' x = k then x\<lparr>gapBefore := g\<rparr> else x)) cs = map id' cs"
  by (induction cs) simp_all

lemma inv_mouseMove: "firstGapInv s \<Longrightarrow> firstGapInv (handleMouseMove e s)"
proof (cases "dragRef s")
  case None
  assume "firstGapInv s"
  with None show ?thesis by (simp add: handleMouseMove_def)
next
  case (Some d)
  assume inv: "firstGapInv s"
  show ?thesis
  proof (cases "chunks s")
    case Nil
    with inv Some show ?thesis by (simp add: handleMouseMove_def firstGapInv_def Let_def)
  next
    case (Cons c cs)
    with inv have "id' c = ''a''" "gapBefore c = 0" by (auto simp: firstGapInv_def)
    moreover from inv Some have "chunkId d \<noteq> ''a''" by (simp add: firstGapInv_def)
    ultimately show ?thesis using inv Some Cons
      by (simp add: handleMouseMove_def firstGapInv_def Let_def comp_def map_gap_ids)
  qed
qed

lemma inv_mouseUp: "firstGapInv s \<Longrightarrow> firstGapInv (handleMouseUp s)"
  by (simp add: handleMouseUp_def stopAutoScroll_def cancelAnimationFrame_def firstGapInv_def
      split: option.splits)

lemma inv_autoScroll: "firstGapInv s \<Longrightarrow> firstGapInv (autoScrollFn s)"
  by (simp add: autoScrollFn_def requestAnimationFrame_def firstGapInv_def Let_def
      split: option.splits)

lemma inv_step: "firstGapInv s \<Longrightarrow> firstGapInv (step B s ev)"
proof (cases ev)
  case (LoadSettled ld)
  assume "firstGapInv s"
  with LoadSettled show ?thesis by (simp add: inv_load)
next
  case (ChunkMouseDown cid e)
  assume "firstGapInv s"
  with ChunkMouseDown show ?thesis by (simp add: inv_mouseDown)
next
  case (DocumentMouseMove e)
  assume "firstGapInv s"
  with DocumentMouseMove show ?thesis by (simp add: inv_mouseMove)
next
  case DocumentMouseUp
  assume "firstGapInv s"
  with DocumentMouseUp show ?thesis by (simp add: inv_mouseUp)
next
  case (AnimationFrame h)
  assume inv: "firstGapInv s"
  then have "firstGapInv (s\<lparr>rafQueue := removeAll h (rafQueue s)\<rparr>)"
    by (simp add: firstGapInv_def)
  then have "firstGapInv (autoScrollFn (s\<lparr>rafQueue := removeAll h (rafQueue s)\<rparr>))"
    by (rule inv_autoScroll)
  with inv AnimationFrame show ?thesis by simp
qed (simp_all add: firstGapInv_def handleZoomChange_def onWheel_def split: option.splits)

lemma reachable_inv: "reachable B s \<Longrightarrow> firstGapInv s"
  by (induction rule: reachable.induct) (simp_all add: inv_initial inv_step)

subsection \<open>Auto-scroll\<close>

lemma autoScroll_container:
  assumes "scrollContainerRef s = Some c" and "dragRef s = Some drag"
  shows "scrollContainerRef (autoScrollFn s) =
     Some (if rectRight c - mouseXRef s < 80 \<and> rectRight c - mouseXRef s > 0
           then c\<lparr>scrollLeft :=
                  scrollLeft c + of_int \<lceil>12 * (1 - (rectRight c - mouseXRef s) / 80)\<rceil>\<rparr>
           else if mouseXRef s - rectLeft c < 80 \<and> mouseXRef s - rectLeft c > 0
           then c\<lparr>scrollLeft :=
                  scrollLeft c - of_int \<lceil>12 * (1 - (mouseXRef s - rectLeft c) / 80)\<rceil>\<rparr>
           else c)"
  using assms
  by (simp add: autoScrollFn_def requestAnimationFrame_def Let_def EDGE_THRESHOLD_def
      SCROLL_SPEED_def)

lemma scrolledBy_eq:
  assumes "scrollContainerRef s = Some c" and "dragRef s = Some drag"
  shows "scrolledBy s =
     (if 0 < rectRight c - mouseXRef s \<and> rectRight c - mouseXRef s < 80
      then of_int \<lceil>12 * (1 - (rectRight c - mouseXRef s) / 80)\<rceil>
      else if 0 < mouseXRef s - rectLeft c \<and> mouseXRef s - rectLeft c < 80
      then - of_int \<lceil>12 * (1 - (mouseXRef s - rectLeft c) / 80)\<rceil>
      else 0)"
  using assms(1) autoScroll_container [OF assms] by (auto simp: scrolledBy_def)

lemma ramp_bounds:
  fixes d :: real
  assumes "0 < d" and "d < 80"
  shows "1 \<le> \<lceil>12 * (1 - d / 80)\<rceil> \<and> \<lceil>12 * (1 - d / 80)\<rceil> \<le> 12"
proof
  from assms have "0 < 12 * (1 - d / 80)" by simp
  then show "1 \<le> \<lceil>12 * (1 - d / 80)\<rceil>" by linarith
  from assms have "12 * (1 - d / 80) \<le> 12" by simp
  then show "\<lceil>12 * (1 - d / 80)\<rceil> \<le> 12" by (simp add: ceiling_le_iff)
qed

lemma ramp_mono:
  fixes d d' :: real
  assumes "d \<le> d'"
  shows "\<lceil>12 * (1 - d' / 80)\<rceil> \<le> \<lceil>12 * (1 - d / 80)\<rceil>"
  using assms by (intro ceiling_mono) simp

subsection \<open>The concrete run\<close>

lemma loadedState_eq: "loadedState = initial\<lparr>chunks := scenarioChunks, loading := False\<rparr>"
  by (simp add: loadedState_def loadEffect_def DEMO_CHUNKS_def scenarioChunks_def initial_def)

lemma scenario_ids: "map id' scenarioChunks = [''a'', ''b'', ''c'', ''d'', ''e'']"
  by (simp add: scenarioChunks_def DEMO_CHUNKS_def withDuration_def)

lemma scenario_gaps: "map gapBefore scenarioChunks = [0, 0, 0, 0, 0]"
  by (simp add: scenarioChunks_def DEMO_CHUNKS_def withDuration_def)

lemma draggingState_eq:
  "draggingState = initial\<lparr>chunks := scenarioChunks, loading := False,
     dragState := Some \<lparr>chunkId = ''b'', startMouseX = 100, initialGapBefore = 0\<rparr>,
     dragRef := Some \<lparr>chunkId = ''b'', startMouseX = 100, initialGapBefore = 0\<rparr>,
     scrollRafRef := Some 1, mouseXRef := 100, rafQueue := [1], rafCounter := 2,
     mousemoveListener := True, mouseupListener := True\<rparr>"
  by (simp add: draggingState_def loadedState_eq onChunkMouseDown_def pointerAt_def findIndex_def
      scenarioChunks_def DEMO_CHUNKS_def withDuration_def initial_def startAutoScroll_def
      requestAnimationFrame_def Let_def)

lemma nearEdge_fields:
  "scrollContainerRef (nearEdge x) = Some \<lparr>rectLeft = 0, rectRight = 1000, scrollLeft = 0\<rparr>"
  "dragRef (nearEdge x) = Some \<lparr>chunkId = ''b'', startMouseX = 100, initialGapBefore = 0\<rparr>"
  "mouseXRef (nearEdge x) = x"
  by (simp_all add: nearEdge_def draggingState_eq handleMouseMove_def pointerAt_def initial_def
      Let_def)

lemma reachable_loaded: "reachable [] loadedState"
  unfolding loadedState_def by (intro reachable.intros)

lemma reachable_dragging: "reachable [] draggingState"
  unfolding draggingState_def by (intro reachable.intros reachable_loaded)

lemma reachable_nearEdge: "reachable [] (nearEdge x)"
  unfolding nearEdge_def by (intro reachable.intros reachable_dragging)

section \<open>The ruler and the chunk row\<close>

text \<open>
  Claim C1: for every chunk sequence and every zoom in [20, 150] the total ruler width
  equals the total chunk-row width, the sum over the chunks of
  \<open>gapBefore + durationSeconds * pixelsPerSecond\<close>. The ruler's own documentation asks for
  the same (the ruler must have the exact same pixel width as the chunks row). The code
  does not do it. For the five two-second chunks at 50 pixels per second the row is 500
  pixels wide, as it is rendered and by the claim's sum, and so is the content width the
  ruler computes, but the ruler's element gets the width extended by three tick intervals,
  800 pixels. For five half-second chunks at 60 pixels per second the content width is 150,
  the row is rendered 300 pixels wide (every card at its minimum of 60), and the ruler is
  330 pixels wide. All values in both evaluations are multiples of one half, so the
  arithmetic is the same in binary floating point.
\<close>

theorem ruler_wider_than_chunk_row:
  "MIN_PIXELS_PER_SECOND \<le> 50 \<and> 50 \<le> MAX_PIXELS_PER_SECOND \<and>
   (\<Sum>c\<leftarrow>scenarioChunks. gapBefore c + durationSeconds c * 50) = 500 \<and>
   chunkRowWidth scenarioChunks 50 = 500 \<and>
   contentWidth scenarioChunks 50 = 500 \<and>
   rulerWidth (TimelineRuler scenarioChunks 50) = 800 \<and>
   rulerWidth (TimelineRuler scenarioChunks 50) \<noteq> chunkRowWidth scenarioChunks 50 \<and>
   MIN_PIXELS_PER_SECOND \<le> 60 \<and> 60 \<le> MAX_PIXELS_PER_SECOND \<and>
   (\<Sum>c\<leftarrow>shortChunks. gapBefore c + durationSeconds c * 60) = 150 \<and>
   chunkRowWidth shortChunks 60 = 300 \<and>
   contentWidth shortChunks 60 = 150 \<and>
   rulerWidth (TimelineRuler shortChunks 60) = 330"
proof -
  have bounds: "MIN_PIXELS_PER_SECOND \<le> 50" "50 \<le> MAX_PIXELS_PER_SECOND"
    "MIN_PIXELS_PER_SECOND \<le> 60" "60 \<le> MAX_PIXELS_PER_SECOND"
    by (simp_all add: MIN_PIXELS_PER_SECOND_def MAX_PIXELS_PER_SECOND_def)
  have sums: "(\<Sum>c\<leftarrow>scenarioChunks. gapBefore c + durationSeconds c * 50) = 500"
    "(\<Sum>c\<leftarrow>shortChunks. gapBefore c + durationSeconds c * 60) = 150"
    using scenario_content short_content by (simp_all only: contentWidth_sum)
  have differ: "rulerWidth (TimelineRuler scenarioChunks 50) \<noteq> chunkRowWidth scenarioChunks 50"
    by (simp add: scenario_ruler scenario_row)
  from bounds sums differ scenario_row scenario_content scenario_ruler short_row short_content
    short_ruler
  show ?thesis by blast
qed

section \<open>Tick interval, tick generation, time stamps\<close>

text \<open>
  Claim C6: with the default minimum gap of 60 pixels, \<open>chooseTickInterval p\<close> is the
  smallest of the candidates 0.5, 1, 2, 5, 10, 15, 30, 60, 120, 300 whose product with \<open>p\<close>
  is at least 60; when no candidate qualifies it is the largest candidate, 300; and
  \<open>chooseTickInterval 50 = 2\<close>. It holds for every \<open>p\<close>, positive or not.
\<close>

theorem chooseTickInterval_smallest:
  "((\<exists>c\<in>set candidates. 60 \<le> c * p) \<longrightarrow>
      chooseTickInterval p minPixelGap_default \<in> set candidates \<and>
      60 \<le> chooseTickInterval p minPixelGap_default * p \<and>
      (\<forall>c\<in>set candidates. 60 \<le> c * p \<longrightarrow> chooseTickInterval p minPixelGap_default \<le> c)) \<and>
   ((\<forall>c\<in>set candidates. c * p < 60) \<longrightarrow> chooseTickInterval p minPixelGap_default = 300) \<and>
   set candidates = {0.5, 1, 2, 5, 10, 15, 30, 60, 120, 300} \<and>
   chooseTickInterval 50 minPixelGap_default = 2"
proof (intro conjI impI)
  assume ex: "\<exists>c\<in>set candidates. 60 \<le> c * p"
  then obtain c where c: "firstFit candidates p minPixelGap_default = Some c"
    using firstFit_None [of candidates p minPixelGap_default]
    by (cases "firstFit candidates p minPixelGap_default")
      (auto simp: minPixelGap_default_def)
  then have r: "chooseTickInterval p minPixelGap_default = c"
    by (simp add: chooseTickInterval_def)
  show "chooseTickInterval p minPixelGap_default \<in> set candidates"
    using firstFit_Some [OF c] r by simp
  show "60 \<le> chooseTickInterval p minPixelGap_default * p"
    using firstFit_Some [OF c] r by (simp add: minPixelGap_default_def)
  show "\<forall>c\<in>set candidates. 60 \<le> c * p \<longrightarrow> chooseTickInterval p minPixelGap_default \<le> c"
    using firstFit_least [OF sorted_candidates c] r by (simp add: minPixelGap_default_def)
next
  assume "\<forall>c\<in>set candidates. c * p < 60"
  then have "firstFit candidates p minPixelGap_default = None"
    by (simp add: firstFit_None minPixelGap_default_def not_le)
  then show "chooseTickInterval p minPixelGap_default = 300"
    by (simp add: chooseTickInterval_def candidates_def)
next
  show "set candidates = {0.5, 1, 2, 5, 10, 15, 30, 60, 120, 300}"
    by (simp add: candidates_def)
next
  show "chooseTickInterval 50 minPixelGap_default = 2"
    by (rule interval_at_default_zoom)
qed

theorem chooseTickInterval_smallest_witness:
  "5 \<in> set candidates \<and> (60::real) \<le> 5 * 20 \<and>
   chooseTickInterval 20 minPixelGap_default \<in> set candidates \<and>
   60 \<le> chooseTickInterval 20 minPixelGap_default * 20 \<and>
   chooseTickInterval 20 minPixelGap_default \<le> 5 \<and>
   chooseTickInterval (1 / 10) minPixelGap_default = 300"
proof -
  have five: "5 \<in> set candidates" by (simp add: candidates_def)
  have fits: "(60::real) \<le> 5 * 20" by simp
  from five fits have ex: "\<exists>c\<in>set candidates. 60 \<le> c * 20" by blast
  have none: "\<forall>c\<in>set candidates. c * (1 / 10) < 60" by (simp add: candidates_def)
  from chooseTickInterval_smallest [of 20] ex five fits
  have "chooseTickInterval 20 minPixelGap_default \<in> set candidates \<and>
        60 \<le> chooseTickInterval 20 minPixelGap_default * 20 \<and>
        chooseTickInterval 20 minPixelGap_default \<le> 5"
    by blast
  moreover from chooseTickInterval_smallest [of "1 / 10"] none
  have "chooseTickInterval (1 / 10) minPixelGap_default = 300" by blast
  ultimately show ?thesis using five fits by blast
qed

text \<open>
  Claim C7: with \<open>interval = chooseTickInterval pixelsPerSecond\<close> and
  \<open>extendedSeconds = contentSeconds + 3 * interval\<close>, the ticks are, in order, those at
  \<open>t = 0, interval, 2 * interval, ...\<close> for exactly the multiples with
  \<open>t \<le> extendedSeconds\<close> (the bound included); the tick at \<open>t\<close> is placed at pixel
  \<open>t * pixelsPerSecond\<close> and is major exactly when \<open>t = 0\<close> or the remainder of \<open>t\<close>
  by \<open>2 * interval\<close> is 0. For the five two-second chunks at 50 pixels per second the ticks
  are at 0, 2, ..., 16 seconds, at the pixels 0, 100, ..., 800.
\<close>

theorem ticks_every_interval:
  assumes "0 < pps"
  shows
  "(let interval = chooseTickInterval pps minPixelGap_default;
        contentSeconds = contentWidth cs pps / pps;
        extendedSeconds = contentSeconds + 3 * interval;
        n = (if 0 \<le> extendedSeconds then nat \<lfloor>extendedSeconds / interval\<rfloor> + 1 else 0)
    in ticks (TimelineRuler cs pps) =
         map (\<lambda>k. \<lparr>time = real k * interval,
                    px = real k * interval * pps,
                    isMajor = (real k * interval = 0 \<or>
                               js_rem (real k * interval) (2 * interval) = 0)\<rparr>)
           [0..<n] \<and>
       (\<forall>k. (real k * interval \<le> extendedSeconds) = (k < n))) \<and>
   map time (ticks (TimelineRuler scenarioChunks 50)) = [0, 2, 4, 6, 8, 10, 12, 14, 16] \<and>
   map px (ticks (TimelineRuler scenarioChunks 50)) =
     [0, 100, 200, 300, 400, 500, 600, 700, 800]"
proof -
  let ?i = "chooseTickInterval pps minPixelGap_default"
  let ?e = "contentWidth cs pps / pps + 3 * ?i"
  let ?n = "if 0 \<le> ?e then nat \<lfloor>?e / ?i\<rfloor> + 1 else 0"
  have i: "0 < ?i"
    using chooseTickInterval_lower [of pps minPixelGap_default] by simp
  have "ticks (TimelineRuler cs pps) = tickLoop pps ?e 0 []"
    by (simp add: TimelineRuler_def Let_def EXTRA_TICKS_def mult.commute)
  also have "\<dots> = map (\<lambda>k. tickAt pps (real k * ?i)) [0..<?n]"
    by (simp add: tickLoop_closed)
  finally have general:
    "ticks (TimelineRuler cs pps) =
       map (\<lambda>k. \<lparr>time = real k * ?i, px = real k * ?i * pps,
                  isMajor = (real k * ?i = 0 \<or> js_rem (real k * ?i) (2 * ?i) = 0)\<rparr>)
         [0..<?n]"
    by (simp add: tickAt_def mult.commute)
  have count: "\<forall>k. (real k * ?i \<le> ?e) = (k < ?n)"
    using tick_count [OF i] by blast
  have "ticks (TimelineRuler scenarioChunks 50) = tickLoop 50 16 0 []"
    by (simp add: TimelineRuler_def Let_def scenario_content interval_at_default_zoom
        EXTRA_TICKS_def)
  then have scenario:
    "map time (ticks (TimelineRuler scenarioChunks 50)) = [0, 2, 4, 6, 8, 10, 12, 14, 16]"
    "map px (ticks (TimelineRuler scenarioChunks 50)) =
       [0, 100, 200, 300, 400, 500, 600, 700, 800]"
    by (simp_all add: tickLoop.simps interval_at_default_zoom)
  from general count scenario show ?thesis by (simp add: Let_def)
qed

theorem ticks_every_interval_witness:
  "(0::real) < 20 \<and>
   map time (ticks (TimelineRuler [] 20)) = [0, 5, 10, 15] \<and>
   map px (ticks (TimelineRuler [] 20)) = [0, 100, 200, 300] \<and>
   map isMajor (ticks (TimelineRuler [] 20)) = [True, False, True, False]"
proof -
  have pos: "(0::real) < 20" by simp
  have i: "chooseTickInterval 20 minPixelGap_default = 5"
    by (simp add: chooseTickInterval_def candidates_def minPixelGap_default_def)
  have upt: "[0..<4] = [0, 1, 2, 3]" by (simp add: upt_rec)
  from ticks_every_interval [OF pos, of "[]"] show ?thesis
    by (simp add: Let_def i contentWidth_def upt js_rem_def js_trunc_def)
qed

text \<open>
  Claim C8: for every \<open>seconds \<ge> 0\<close>, \<open>formatTime\<close> renders the whole minutes
  \<open>\<lfloor>seconds / 60\<rfloor>\<close> without padding, a colon, and the whole seconds
  \<open>\<lfloor>seconds mod 60\<rfloor>\<close> as exactly two digits; both come from \<open>\<lfloor>seconds\<rfloor>\<close>, so a
  fraction of a second is cut off and never rounds up. In particular 0, 59, 60, 125 and
  125.9 seconds give 0:00, 0:59, 1:00, 2:05 and 2:05.
\<close>

theorem formatTime_minutes_seconds:
  "(0 \<le> seconds \<longrightarrow>
      formatTime seconds =
        nat_toString (nat \<lfloor>seconds / 60\<rfloor>) @ '':'' @
        [digit_char (nat \<lfloor>js_rem seconds 60\<rfloor> div 10),
         digit_char (nat \<lfloor>js_rem seconds 60\<rfloor> mod 10)] \<and>
      \<lfloor>seconds / 60\<rfloor> = \<lfloor>seconds\<rfloor> div 60 \<and>
      \<lfloor>js_rem seconds 60\<rfloor> = \<lfloor>seconds\<rfloor> mod 60 \<and>
      js_rem seconds 60 = seconds - 60 * of_int \<lfloor>seconds / 60\<rfloor>) \<and>
   formatTime 0 = ''0:00'' \<and> formatTime 59 = ''0:59'' \<and> formatTime 60 = ''1:00'' \<and>
   formatTime 125 = ''2:05'' \<and> formatTime 125.9 = ''2:05''"
proof (intro conjI impI)
  assume s: "0 \<le> seconds"
  have m: "0 \<le> \<lfloor>seconds / 60\<rfloor>" using s by simp
  have r: "\<lfloor>js_rem seconds 60\<rfloor> = \<lfloor>seconds\<rfloor> mod 60" using s by (rule floor_rem60)
  then have r0: "0 \<le> \<lfloor>js_rem seconds 60\<rfloor>" and r60: "nat \<lfloor>js_rem seconds 60\<rfloor> < 100"
    by simp_all
  show "formatTime seconds =
        nat_toString (nat \<lfloor>seconds / 60\<rfloor>) @ '':'' @
        [digit_char (nat \<lfloor>js_rem seconds 60\<rfloor> div 10),
         digit_char (nat \<lfloor>js_rem seconds 60\<rfloor> mod 10)]"
    using m r0 two_digits [OF r60] by (simp add: formatTime_def toString_def Let_def)
  show "\<lfloor>seconds / 60\<rfloor> = \<lfloor>seconds\<rfloor> div 60" using s by (rule floor_div60)
  show "\<lfloor>js_rem seconds 60\<rfloor> = \<lfloor>seconds\<rfloor> mod 60" by (rule r)
  show "js_rem seconds 60 = seconds - 60 * of_int \<lfloor>seconds / 60\<rfloor>"
    using s by (simp add: js_rem_def js_trunc_def)
next
  show "formatTime 0 = ''0:00''"
    by (simp add: formatTime_def js_rem_def js_trunc_def toString_def padStart_def digit_char_def)
  show "formatTime 59 = ''0:59''"
    by (simp add: formatTime_def js_rem_def js_trunc_def toString_def padStart_def digit_char_def)
  show "formatTime 60 = ''1:00''"
    by (simp add: formatTime_def js_rem_def js_trunc_def toString_def padStart_def digit_char_def)
  show "formatTime 125 = ''2:05''"
    by (simp add: formatTime_def js_rem_def js_trunc_def toString_def padStart_def digit_char_def)
  show "formatTime 125.9 = ''2:05''"
    by (simp add: formatTime_def js_rem_def js_trunc_def toString_def padStart_def digit_char_def)
qed

theorem formatTime_minutes_seconds_witness:
  "(0::real) \<le> 7451 / 2 \<and> formatTime (7451 / 2) = ''62:05''"
proof -
  have nonneg: "(0::real) \<le> 7451 / 2" by simp
  from formatTime_minutes_seconds [of "7451 / 2"] nonneg
  have "formatTime (7451 / 2) =
        nat_toString (nat \<lfloor>(7451 / 2 :: real) / 60\<rfloor>) @ '':'' @
        [digit_char (nat \<lfloor>js_rem (7451 / 2) 60\<rfloor> div 10),
         digit_char (nat \<lfloor>js_rem (7451 / 2) 60\<rfloor> mod 10)]"
    by blast
  then show ?thesis
    by (simp add: js_rem_def js_trunc_def digit_char_def)
qed

section \<open>Dragging\<close>

text \<open>
  Claim C2: while a drag session is active, a pointer-move at \<open>x\<close> sets the gap of the
  dragged chunk (the chunk whose identifier the session holds) to
  \<open>max 0 (initialGapBefore + (x - startMouseX))\<close> and changes nothing else in it; every
  other chunk's record is unchanged, and so are the length of the list and the order of the
  chunks.
\<close>

theorem mouseMove_sets_dragged_gap:
  assumes "dragRef s = Some drag"
  shows
  "(let newGap = max 0 (initialGapBefore drag + (clientX e - startMouseX drag));
        s' = handleMouseMove e s
    in length (chunks s') = length (chunks s) \<and>
       map id' (chunks s') = map id' (chunks s) \<and>
       (\<forall>i<length (chunks s).
          chunks s' ! i =
            (if id' (chunks s ! i) = chunkId drag then (chunks s ! i)\<lparr>gapBefore := newGap\<rparr>
             else chunks s ! i)))"
  using assms by (simp add: handleMouseMove_def Let_def comp_def map_gap_ids)

theorem mouseMove_sets_dragged_gap_witness:
  "dragRef draggingState = Some \<lparr>chunkId = ''b'', startMouseX = 100, initialGapBefore = 0\<rparr> \<and>
   length (chunks (handleMouseMove (pointerAt 130) draggingState)) = 5 \<and>
   chunks (handleMouseMove (pointerAt 130) draggingState) ! 0 = chunks draggingState ! 0 \<and>
   chunks (handleMouseMove (pointerAt 130) draggingState) ! 1 =
     (chunks draggingState ! 1)\<lparr>gapBefore := 30\<rparr> \<and>
   chunks (handleMouseMove (pointerAt 130) draggingState) ! 2 = chunks draggingState ! 2 \<and>
   chunks (handleMouseMove (pointerAt 70) draggingState) ! 1 =
     (chunks draggingState ! 1)\<lparr>gapBefore := 0\<rparr>"
proof -
  let ?d = "\<lparr>chunkId = ''b'', startMouseX = 100, initialGapBefore = 0\<rparr>"
  have d: "dragRef draggingState = Some ?d" by (simp add: draggingState_eq)
  have len: "length (chunks draggingState) = 5"
    by (simp add: draggingState_eq scenarioChunks_def DEMO_CHUNKS_def)
  have ids: "id' (chunks draggingState ! 0) = ''a''" "id' (chunks draggingState ! 1) = ''b''"
    "id' (chunks draggingState ! 2) = ''c''"
    by (simp_all add: draggingState_eq scenarioChunks_def DEMO_CHUNKS_def)
  from mouseMove_sets_dragged_gap [OF d, of "pointerAt 130"] len
  have right: "length (chunks (handleMouseMove (pointerAt 130) draggingState)) = 5 \<and>
    (\<forall>i<5. chunks (handleMouseMove (pointerAt 130) draggingState) ! i =
       (if id' (chunks draggingState ! i) = ''b'' then (chunks draggingState ! i)\<lparr>gapBefore := 30\<rparr>
        else chunks draggingState ! i))"
    by (simp add: Let_def pointerAt_def)
  from mouseMove_sets_dragged_gap [OF d, of "pointerAt 70"] len
  have left: "\<forall>i<5. chunks (handleMouseMove (pointerAt 70) draggingState) ! i =
       (if id' (chunks draggingState ! i) = ''b'' then (chunks draggingState ! i)\<lparr>gapBefore := 0\<rparr>
        else chunks draggingState ! i)"
    by (simp add: Let_def pointerAt_def)
  from right have r0: "chunks (handleMouseMove (pointerAt 130) draggingState) ! 0 =
      chunks draggingState ! 0"
    using ids by simp
  from right have r1: "chunks (handleMouseMove (pointerAt 130) draggingState) ! 1 =
      (chunks draggingState ! 1)\<lparr>gapBefore := 30\<rparr>"
    using ids by simp
  from right have r2: "chunks (handleMouseMove (pointerAt 130) draggingState) ! 2 =
      chunks draggingState ! 2"
    using ids by simp
  from left have l1: "chunks (handleMouseMove (pointerAt 70) draggingState) ! 1 =
      (chunks draggingState ! 1)\<lparr>gapBefore := 0\<rparr>"
    using ids by simp
  from d right r0 r1 r2 l1 show ?thesis by blast
qed

text \<open>
  Claim C4: a primary-button pointer-down on the first chunk, or with an identifier that no
  chunk has, is ignored: the handler only marks the event as handled and returns; the whole
  state of the controller is as before, so an idle controller stays idle, no listener is
  registered and no animation frame is requested.
\<close>

theorem mouseDown_invalid_target_ignored:
  assumes "button e = 0"
    and "cid \<notin> id' ` set (chunks s) \<or> (chunks s \<noteq> [] \<and> id' (hd (chunks s)) = cid)"
  shows "onChunkMouseDown cid e s = (e\<lparr>defaultPrevented := True\<rparr>, s) \<and>
         step B s (ChunkMouseDown cid e) = s"
proof -
  let ?k = "findIndex (\<lambda>c. id' c = cid) (chunks s)"
  from assms(2) have "?k < 0 \<or> ?k = 0"
    by (auto simp: findIndex_absent findIndex_zero)
  with assms(1) show ?thesis by (auto simp: onChunkMouseDown_def Let_def)
qed

theorem mouseDown_invalid_target_ignored_witness:
  "button (pointerAt 100) = 0 \<and> chunks loadedState \<noteq> [] \<and>
   id' (hd (chunks loadedState)) = ''a'' \<and> ''z'' \<notin> id' ` set (chunks loadedState) \<and>
   dragRef loadedState = None \<and>
   snd (onChunkMouseDown ''a'' (pointerAt 100) loadedState) = loadedState \<and>
   snd (onChunkMouseDown ''z'' (pointerAt 100) loadedState) = loadedState"
proof -
  have b: "button (pointerAt 100) = 0" by (simp add: pointerAt_def)
  have ne: "chunks loadedState \<noteq> []"
    by (simp add: loadedState_eq scenarioChunks_def DEMO_CHUNKS_def)
  have first: "id' (hd (chunks loadedState)) = ''a''"
    by (simp add: loadedState_eq scenarioChunks_def DEMO_CHUNKS_def)
  have absent: "''z'' \<notin> id' ` set (chunks loadedState)"
    by (simp add: loadedState_eq scenarioChunks_def DEMO_CHUNKS_def)
  have idle: "dragRef loadedState = None" by (simp add: loadedState_eq initial_def)
  from ne first have t1: "''a'' \<notin> id' ` set (chunks loadedState) \<or>
      (chunks loadedState \<noteq> [] \<and> id' (hd (chunks loadedState)) = ''a'')"
    by blast
  from absent have t2: "''z'' \<notin> id' ` set (chunks loadedState) \<or>
      (chunks loadedState \<noteq> [] \<and> id' (hd (chunks loadedState)) = ''z'')"
    by blast
  from mouseDown_invalid_target_ignored [OF b t1]
  have a: "snd (onChunkMouseDown ''a'' (pointerAt 100) loadedState) = loadedState" by simp
  from mouseDown_invalid_target_ignored [OF b t2]
  have z: "snd (onChunkMouseDown ''z'' (pointerAt 100) loadedState) = loadedState" by simp
  from b ne first absent idle a z show ?thesis by blast
qed

text \<open>
  Claim C10: when no drag session is active, the mouse-move handler and the auto-scroll
  callback both return the state as it is: chunks, drag state and scroll position are
  unchanged. A document mouse-move then changes nothing, and an animation frame that runs
  only leaves the page's queue of pending frames.
\<close>

theorem idle_events_change_nothing:
  assumes "dragRef s = None"
  shows "handleMouseMove e s = s \<and> autoScrollFn s = s \<and>
     step B s (DocumentMouseMove e) = s \<and>
     step B s (AnimationFrame h) =
       (if h \<in> set (rafQueue s) then s\<lparr>rafQueue := removeAll h (rafQueue s)\<rparr> else s) \<and>
     scrollContainerRef (step B s (AnimationFrame h)) = scrollContainerRef s \<and>
     chunks (step B s (AnimationFrame h)) = chunks s"
  using assms by (simp add: handleMouseMove_def autoScrollFn_def split: option.splits)

theorem idle_events_change_nothing_witness:
  "dragRef loadedState = None \<and>
   handleMouseMove (pointerAt 500) loadedState = loadedState \<and>
   autoScrollFn loadedState = loadedState"
proof -
  have idle: "dragRef loadedState = None" by (simp add: loadedState_eq initial_def)
  from idle_events_change_nothing [OF idle, of "pointerAt 500"] idle show ?thesis by blast
qed

text \<open>
  Claim C5: in every reachable state the first chunk's gap is 0. Every entry of the demo
  table has gap 0; a pointer-down changes the drag session only when the pressed chunk's
  index is greater than 0; and an active session never holds the identifier of the first
  chunk, so the pointer-move update leaves the first chunk as it is.
\<close>

theorem first_gap_always_zero:
  assumes "reachable B s"
  shows "(\<forall>c cs. chunks s = c # cs \<longrightarrow> gapBefore c = 0) \<and>
     (\<forall>c\<in>set (DEMO_CHUNKS B). gapBefore c = 0) \<and>
     (\<forall>cid e. dragRef (snd (onChunkMouseDown cid e s)) \<noteq> dragRef s \<longrightarrow>
        0 < findIndex (\<lambda>c. id' c = cid) (chunks s)) \<and>
     (\<forall>d c cs. dragRef s = Some d \<and> chunks s = c # cs \<longrightarrow> id' c \<noteq> chunkId d) \<and>
     (\<forall>e c cs. chunks s = c # cs \<longrightarrow> hd (chunks (handleMouseMove e s)) = c)"
proof -
  from assms have inv: "firstGapInv s" by (rule reachable_inv)
  have move: "\<forall>e c cs. chunks s = c # cs \<longrightarrow> hd (chunks (handleMouseMove e s)) = c"
    using inv by (auto simp: firstGapInv_def handleMouseMove_def Let_def split: option.splits)
  have "\<forall>c cs. chunks s = c # cs \<longrightarrow> gapBefore c = 0"
    using inv by (auto simp: firstGapInv_def)
  moreover have "\<forall>cid e. dragRef (snd (onChunkMouseDown cid e s)) \<noteq> dragRef s \<longrightarrow>
      0 < findIndex (\<lambda>c. id' c = cid) (chunks s)"
    using mouseDown_drag by blast
  moreover have "\<forall>d c cs. dragRef s = Some d \<and> chunks s = c # cs \<longrightarrow> id' c \<noteq> chunkId d"
    using inv by (auto simp: firstGapInv_def)
  ultimately show ?thesis using demo_gaps move by blast
qed

theorem first_gap_always_zero_witness:
  "reachable [] (nearEdge 130) \<and>
   map gapBefore (chunks (nearEdge 130)) = [0, 30, 0, 0, 0] \<and>
   gapBefore (hd (chunks (nearEdge 130))) = 0"
proof -
  have r: "reachable [] (nearEdge 130)" by (rule reachable_nearEdge)
  have gaps: "map gapBefore (chunks (nearEdge 130)) = [0, 30, 0, 0, 0]"
    by (simp add: nearEdge_def draggingState_eq handleMouseMove_def pointerAt_def initial_def
        Let_def scenarioChunks_def DEMO_CHUNKS_def withDuration_def)
  then obtain c cs where cs: "chunks (nearEdge 130) = c # cs"
    by (cases "chunks (nearEdge 130)") auto
  with first_gap_always_zero [OF r] have "gapBefore c = 0" by blast
  with cs r gaps show ?thesis by simp
qed

section \<open>Auto-scroll\<close>

text \<open>
  Claim C3, as stated: at distance \<open>d\<close> from an edge the scroll per tick is
  \<open>\<lceil>12 * (1 - d / 80)\<rceil>\<close> for \<open>0 \<le> d < 80\<close>, so 12 at distance 0, and it is strictly
  decreasing between 0 and 80. It fails twice: with the pointer exactly on the right edge
  (\<open>x = 1000\<close>, distance 0) nothing is scrolled, and at the distances 1 and 2
  (\<open>x = 999\<close> and \<open>x = 998\<close>) the scroll is 12 both times.
\<close>

theorem autoScroll_speed_counterexample:
  "dragRef (nearEdge 1000) \<noteq> None \<and>
   map_option rectRight (scrollContainerRef (nearEdge 1000)) = Some (mouseXRef (nearEdge 1000)) \<and>
   scrolledBy (nearEdge 1000) = 0 \<and>
   scrolledBy (nearEdge 1000) \<noteq> of_int \<lceil>12 * (1 - 0 / 80 :: real)\<rceil> \<and>
   scrolledBy (nearEdge 999) = 12 \<and> scrolledBy (nearEdge 998) = 12"
  by (simp add: scrolledBy_eq [OF nearEdge_fields(1,2)] nearEdge_fields)

text \<open>
  Claim C3, amended: while a drag is active, one tick scrolls right by
  \<open>\<lceil>12 * (1 - d / 80)\<rceil>\<close> when the pointer's distance \<open>d\<close> from the right edge satisfies
  \<open>0 < d < 80\<close>; otherwise it scrolls left by the same formula when the distance from the
  left edge is strictly between 0 and 80; otherwise (distance at least 80, or at most 0) it
  does not scroll. Inside the threshold the scroll is between 1 and 12 pixels and is never
  larger at a larger distance (it is a step function of the distance, not strictly
  decreasing).
\<close>

theorem autoScroll_speed_ramp:
  assumes "scrollContainerRef s = Some c" and "dragRef s = Some drag"
    and "scrollContainerRef t = Some c'" and "dragRef t = Some drag'"
  shows
  "(let dR = rectRight c - mouseXRef s; dL = mouseXRef s - rectLeft c;
        dR' = rectRight c' - mouseXRef t
    in scrolledBy s =
         (if 0 < dR \<and> dR < 80 then of_int \<lceil>12 * (1 - dR / 80)\<rceil>
          else if 0 < dL \<and> dL < 80 then - of_int \<lceil>12 * (1 - dL / 80)\<rceil>
          else 0) \<and>
       (0 < dR \<and> dR < 80 \<longrightarrow> 1 \<le> scrolledBy s \<and> scrolledBy s \<le> 12) \<and>
       (0 < dR \<and> dR \<le> dR' \<and> dR' < 80 \<longrightarrow> scrolledBy t \<le> scrolledBy s))"
proof -
  let ?dR = "rectRight c - mouseXRef s"
  let ?dR' = "rectRight c' - mouseXRef t"
  note s = scrolledBy_eq [OF assms(1,2)]
  note t = scrolledBy_eq [OF assms(3,4)]
  have bounds: "0 < ?dR \<and> ?dR < 80 \<longrightarrow> 1 \<le> scrolledBy s \<and> scrolledBy s \<le> 12"
  proof
    assume d: "0 < ?dR \<and> ?dR < 80"
    then have "scrolledBy s = of_int \<lceil>12 * (1 - ?dR / 80)\<rceil>" by (simp add: s)
    moreover from d have "1 \<le> \<lceil>12 * (1 - ?dR / 80)\<rceil> \<and> \<lceil>12 * (1 - ?dR / 80)\<rceil> \<le> 12"
      by (intro ramp_bounds) simp_all
    ultimately show "1 \<le> scrolledBy s \<and> scrolledBy s \<le> 12" by simp
  qed
  have mono: "0 < ?dR \<and> ?dR \<le> ?dR' \<and> ?dR' < 80 \<longrightarrow> scrolledBy t \<le> scrolledBy s"
  proof
    assume d: "0 < ?dR \<and> ?dR \<le> ?dR' \<and> ?dR' < 80"
    then have "scrolledBy s = of_int \<lceil>12 * (1 - ?dR / 80)\<rceil>" by (simp add: s)
    moreover from d have "scrolledBy t = of_int \<lceil>12 * (1 - ?dR' / 80)\<rceil>" by (simp add: t)
    moreover from d have "\<lceil>12 * (1 - ?dR' / 80)\<rceil> \<le> \<lceil>12 * (1 - ?dR / 80)\<rceil>"
      by (intro ramp_mono) simp
    ultimately show "scrolledBy t \<le> scrolledBy s" by simp
  qed
  from s bounds mono show ?thesis by (simp add: Let_def)
qed

theorem autoScroll_speed_ramp_witness:
  "scrollContainerRef (nearEdge 970) = Some \<lparr>rectLeft = 0, rectRight = 1000, scrollLeft = 0\<rparr> \<and>
   dragRef (nearEdge 970) = Some \<lparr>chunkId = ''b'', startMouseX = 100, initialGapBefore = 0\<rparr> \<and>
   scrolledBy (nearEdge 970) = 8 \<and> scrolledBy (nearEdge 960) = 6 \<and>
   scrolledBy (nearEdge 960) \<le> scrolledBy (nearEdge 970)"
proof -
  note f = nearEdge_fields
  from autoScroll_speed_ramp [OF f(1,2) f(1,2), of 970 960]
  have "scrolledBy (nearEdge 970) = 8 \<and> scrolledBy (nearEdge 960) \<le> scrolledBy (nearEdge 970)"
    by (simp add: Let_def f)
  moreover from autoScroll_speed_ramp [OF f(1,2) f(1,2), of 960 960]
  have "scrolledBy (nearEdge 960) = 6"
    by (simp add: Let_def f)
  ultimately show ?thesis using f(1,2) by blast
qed

section \<open>Loading\<close>

text \<open>
  Claim C9: if any one duration load of the batch is rejected and the component is still
  mounted, the effect logs the error once, sets the chunks to the demo table with the
  duration 5 for every chunk, and leaves the loading state by its only call of
  \<open>SetLoading False\<close>; it raises nothing.
\<close>

theorem load_failure_fallback:
  assumes "\<exists>c\<in>set (DEMO_CHUNKS B). ld (audioUrl c) = Rejected" and "\<not> cancelled s"
  shows
  "(let trace = loadEffect B ld (cancelled s); s' = step B s (LoadSettled ld)
    in trace =
         [ConsoleError, SetChunks (map (\<lambda>c. withDuration c 5) (DEMO_CHUNKS B)),
          SetLoading False] \<and>
       count_list trace (SetLoading False) = 1 \<and>
       length (filter (\<lambda>a. case a of SetLoading b \<Rightarrow> True | _ \<Rightarrow> False) trace) = 1 \<and>
       chunks s' = map (\<lambda>c. withDuration c 5) (DEMO_CHUNKS B) \<and>
       length (chunks s') = 5 \<and>
       (\<forall>c\<in>set (chunks s'). durationSeconds c = 5) \<and>
       loading s' = False \<and>
       consoleErrors s' = consoleErrors s + 1)"
proof -
  note eff = loadEffect_rejected [OF assms]
  have "length (DEMO_CHUNKS B) = 5" by (simp add: DEMO_CHUNKS_def)
  with eff show ?thesis by (simp add: Let_def)
qed

theorem load_failure_fallback_witness:
  "goblinsFails (audioUrl (DEMO_CHUNKS [] ! 2)) = Rejected \<and>
   DEMO_CHUNKS [] ! 2 \<in> set (DEMO_CHUNKS []) \<and> \<not> cancelled initial \<and>
   map durationSeconds (chunks (step [] initial (LoadSettled goblinsFails))) = [5, 5, 5, 5, 5] \<and>
   loading (step [] initial (LoadSettled goblinsFails)) = False \<and>
   consoleErrors (step [] initial (LoadSettled goblinsFails)) = 1"
proof -
  have rej: "goblinsFails (audioUrl (DEMO_CHUNKS [] ! 2)) = Rejected"
    by (simp add: goblinsFails_def DEMO_CHUNKS_def)
  have mem: "DEMO_CHUNKS [] ! 2 \<in> set (DEMO_CHUNKS [])"
    by (simp add: DEMO_CHUNKS_def)
  from rej mem have ex: "\<exists>c\<in>set (DEMO_CHUNKS []). goblinsFails (audioUrl c) = Rejected"
    by blast
  have mounted: "\<not> cancelled initial" by (simp add: initial_def)
  from load_failure_fallback [OF ex mounted]
  have "chunks (step [] initial (LoadSettled goblinsFails)) =
          map (\<lambda>c. withDuration c 5) (DEMO_CHUNKS []) \<and>
        loading (step [] initial (LoadSettled goblinsFails)) = False \<and>
        consoleErrors (step [] initial (LoadSettled goblinsFails)) = consoleErrors initial + 1"
    by (simp add: Let_def)
  then have "map durationSeconds (chunks (step [] initial (LoadSettled goblinsFails))) =
          [5, 5, 5, 5, 5] \<and>
        loading (step [] initial (LoadSettled goblinsFails)) = False \<and>
        consoleErrors (step [] initial (LoadSettled goblinsFails)) = 1"
    by (simp add: DEMO_CHUNKS_def initial_def)
  with rej mem mounted show ?thesis by blast
qed

end
